theory Spec2Isabelle
  imports Main
begin

section \<open>Text and the JavaScript string primitives the server uses\<close>

text \<open>
  The server of \<^verbatim>\<open>src/app/main.ts\<close> (the revision with gzip support, the one that
  registers the four GET routes and the POST route) reads one chunk of bytes from the
  socket, turns it into a JavaScript string and works on that string. Text is modelled as
  \<^typ>\<open>string\<close>, every character being an ASCII character (code below 128), as the request
  line and the header fields of HTTP are: for such text a UTF-16 code unit, a UTF-8 byte
  and a \<^typ>\<open>char\<close> coincide, so \<^verbatim>\<open>Buffer.byteLength\<close> is \<^const>\<open>length\<close> and a
  \<^verbatim>\<open>Buffer\<close> is a \<^typ>\<open>string\<close> as well.
\<close>

abbreviation CR :: char where "CR \<equiv> CHR 0x0D"
abbreviation LF :: char where "LF \<equiv> CHR 0x0A"

definition CRLF :: string where
  "CRLF = [CR, LF]"

definition code :: "char \<Rightarrow> nat" where
  "code c = of_char c"

text \<open>
  The definitions of white space and of letter case below are those of JavaScript on ASCII
  text only: \<^verbatim>\<open>trim\<close> and \<^verbatim>\<open>\s\<close> know more white space (U+00A0, U+FEFF, U+2028 and
  others) and \<^verbatim>\<open>toLowerCase\<close> more capitals. A theorem whose statement depends on them
  says of which text it assumes that it is ASCII.
\<close>

definition is_ascii :: "char \<Rightarrow> bool" where
  "is_ascii c = (code c < 128)"

definition ascii_text :: "string \<Rightarrow> bool" where
  "ascii_text s = list_all is_ascii s"

text \<open>The ASCII characters of the class \<^verbatim>\<open>\s\<close> of a JavaScript regular expression,
  which are also the ASCII characters that \<^verbatim>\<open>String.prototype.trim\<close> strips: tab, line
  feed, vertical tab, form feed, carriage return and space.\<close>

definition is_space :: "char \<Rightarrow> bool" where
  "is_space c = (code c = 32 \<or> (9 \<le> code c \<and> code c \<le> 13))"

text \<open>The class \<^verbatim>\<open>\w\<close>: letters, digits and the underscore.\<close>

definition is_word :: "char \<Rightarrow> bool" where
  "is_word c =
     ((48 \<le> code c \<and> code c \<le> 57) \<or> (65 \<le> code c \<and> code c \<le> 90)
      \<or> (97 \<le> code c \<and> code c \<le> 122) \<or> code c = 95)"

text \<open>The class \<^verbatim>\<open>[\w-]\<close> of the group that stands for a parameter.\<close>

definition is_group_char :: "char \<Rightarrow> bool" where
  "is_group_char c = (is_word c \<or> c = CHR ''-'')"

text \<open>The class \<^verbatim>\<open>[^\s/]\<close> of the characters of a parameter name.\<close>

definition is_name_char :: "char \<Rightarrow> bool" where
  "is_name_char c = (\<not> is_space c \<and> c \<noteq> CHR ''/'')"

text \<open>\<^verbatim>\<open>s.split(d)\<close> for a separator of one character: the pieces between the
  occurrences of \<open>d\<close>, never an empty array.\<close>

fun js_split :: "char \<Rightarrow> string \<Rightarrow> string list" where
  "js_split d [] = [[]]"
| "js_split d (c # cs) =
     (if c = d then [] # js_split d cs
      else (case js_split d cs of
              [] \<Rightarrow> [[c]]
            | p # ps \<Rightarrow> (c # p) # ps))"

text \<open>\<^verbatim>\<open>s.split("\r\n")\<close>.\<close>

fun split_crlf :: "string \<Rightarrow> string list" where
  "split_crlf [] = [[]]"
| "split_crlf [c] = [[c]]"
| "split_crlf (c # d # cs) =
     (if c = CR \<and> d = LF then [] # split_crlf cs
      else (case split_crlf (d # cs) of
              [] \<Rightarrow> [[c]]
            | p # ps \<Rightarrow> (c # p) # ps))"

text \<open>\<^verbatim>\<open>xs[i]\<close>: \<^verbatim>\<open>undefined\<close> (here \<^const>\<open>None\<close>) out of range.\<close>

definition js_index :: "'a list \<Rightarrow> nat \<Rightarrow> 'a option" where
  "js_index xs i = (if i < length xs then Some (xs ! i) else None)"

text \<open>\<^verbatim>\<open>xs.slice(start, end)\<close>: a negative bound counts from the end, and both bounds
  are clamped to the array.\<close>

definition js_slice :: "int \<Rightarrow> int \<Rightarrow> 'a list \<Rightarrow> 'a list" where
  "js_slice start end xs =
     (let n = int (length xs);
          s = (if start < 0 then max (n + start) 0 else min start n);
          e = (if end < 0 then max (n + end) 0 else min end n)
      in take (nat (e - s)) (drop (nat s) xs))"

text \<open>\<^verbatim>\<open>s.trim()\<close> on ASCII text: white space is removed at both ends.\<close>

definition js_trim :: "string \<Rightarrow> string" where
  "js_trim s = rev (dropWhile is_space (rev (dropWhile is_space s)))"

text \<open>\<^verbatim>\<open>s.replace(a, b)\<close> with a string pattern of one character: only the first
  occurrence is replaced.\<close>

fun replace_first :: "char \<Rightarrow> char \<Rightarrow> string \<Rightarrow> string" where
  "replace_first a b [] = []"
| "replace_first a b (c # cs) = (if c = a then b # cs else c # replace_first a b cs)"

text \<open>\<^verbatim>\<open>s.toLowerCase()\<close> on ASCII text.\<close>

definition lower_char :: "char \<Rightarrow> char" where
  "lower_char c = (if 65 \<le> code c \<and> code c \<le> 90 then char_of (code c + 32) else c)"

definition toLowerCase :: "string \<Rightarrow> string" where
  "toLowerCase s = map lower_char s"

text \<open>\<^verbatim>\<open>n.toString()\<close> of a length: decimal digits.\<close>

fun toString :: "nat \<Rightarrow> string" where
  "toString n =
     (if n < 10 then [char_of (48 + n)]
      else toString (n div 10) @ [char_of (48 + n mod 10)])"

text \<open>A JavaScript \<^verbatim>\<open>Map\<close> and an object built by spreading keep their keys in the
  order of first insertion; \<^verbatim>\<open>set\<close> on a present key replaces the value in place.\<close>

fun map_set :: "'k \<Rightarrow> 'v \<Rightarrow> ('k \<times> 'v) list \<Rightarrow> ('k \<times> 'v) list" where
  "map_set k v [] = [(k, v)]"
| "map_set k v ((k', v') # kvs) =
     (if k' = k then (k, v) # kvs else (k', v') # map_set k v kvs)"

definition map_get :: "('k \<times> 'v) list \<Rightarrow> 'k \<Rightarrow> 'v option" where
  "map_get kvs k = map_of kvs k"

text \<open>A string in a condition is true when it is not empty; \<^verbatim>\<open>undefined\<close> is false.\<close>

definition truthy :: "string option \<Rightarrow> bool" where
  "truthy v = (case v of None \<Rightarrow> False | Some s \<Rightarrow> s \<noteq> [])"

section \<open>Route patterns and the regular expression built from them\<close>

text \<open>
  \<^verbatim>\<open>route.replace(/:[^\s/]+/g, '([\\w-]+)')\<close> and \<^verbatim>\<open>route.match(/:[^\s/]+/g)\<close> scan the
  route from the left: a colon followed by at least one name character starts a parameter,
  which takes every name character that follows; any other character stands for itself.
\<close>

datatype seg = Chr char | Par string

function scan_route :: "string \<Rightarrow> seg list" where
  "scan_route [] = []"
| "scan_route (c # cs) =
     (if c = CHR '':'' \<and> takeWhile is_name_char cs \<noteq> []
      then Par (takeWhile is_name_char cs) # scan_route (dropWhile is_name_char cs)
      else Chr c # scan_route cs)"
  by pat_completeness auto
termination
  by (relation "measure length") (auto simp: length_dropWhile_le less_Suc_eq_le)

text \<open>\<^verbatim>\<open>route.match(/:[^\s/]+/g) || []\<close>, each name after \<^verbatim>\<open>substring(1)\<close>.\<close>

fun paramNames :: "seg list \<Rightarrow> string list" where
  "paramNames [] = []"
| "paramNames (Chr c # ss) = paramNames ss"
| "paramNames (Par n # ss) = n # paramNames ss"

text \<open>
  The text left between the parameters is not escaped: it goes into \<^verbatim>\<open>new RegExp\<close> as
  it is. The fragment of the regular expression language interpreted here has the ordinary
  characters, the dot, the end assertion \<^verbatim>\<open>$\<close> and the parameter group. A route that
  uses anything else of that language (one of \<^verbatim>\<open>\ ^ * + ? ( ) [ ] { } |\<close> outside a
  parameter name) is outside the fragment, and \<open>new_RegExp\<close> says so with \<^const>\<open>None\<close>.
\<close>

datatype rx = Lit char | Dot | Eoi | Group

definition is_syntax_char :: "char \<Rightarrow> bool" where
  "is_syntax_char c = (c = CHR 0x5C \<or> c \<in> set ''^*+?()[]{}|'')"


fun new_RegExp :: "seg list \<Rightarrow> rx list option" where
  "new_RegExp [] = Some [Eoi]"
| "new_RegExp (Par n # ss) = map_option ((#) Group) (new_RegExp ss)"
| "new_RegExp (Chr c # ss) =
     (if is_syntax_char c then None
      else map_option ((#) (if c = CHR ''.'' then Dot else if c = CHR ''$'' then Eoi else Lit c))
             (new_RegExp ss))"

text \<open>
  \<^verbatim>\<open>endpoint.match(routeRegex)\<close>. The expression starts with \<^verbatim>\<open>^\<close> and has no flag, so
  the only attempt that can succeed starts at the first character; \<open>rx_exec\<close> is that
  attempt, a backtracking match that returns the captures of the groups from left to
  right. A group is greedy: it first takes every character of its class that follows and
  gives them back one by one, down to one character, until the rest matches.
\<close>

fun rx_exec :: "rx list \<Rightarrow> string \<Rightarrow> string list option"
  and rx_group :: "rx list \<Rightarrow> string \<Rightarrow> nat \<Rightarrow> string list option" where
  "rx_exec [] s = Some []"
| "rx_exec (Lit c # r) s =
     (case s of [] \<Rightarrow> None | x # xs \<Rightarrow> if x = c then rx_exec r xs else None)"
| "rx_exec (Dot # r) s =
     (case s of [] \<Rightarrow> None | x # xs \<Rightarrow> if x = LF \<or> x = CR then None else rx_exec r xs)"
| "rx_exec (Eoi # r) s = (if s = [] then rx_exec r s else None)"
| "rx_exec (Group # r) s = rx_group r s (length (takeWhile is_group_char s))"
| "rx_group r s 0 = None"
| "rx_group r s (Suc k) =
     (case rx_exec r (drop (Suc k) s) of
        Some caps \<Rightarrow> Some (take (Suc k) s # caps)
      | None \<Rightarrow> rx_group r s k)"

datatype failure = TypeError | SyntaxError | RegExpOutsideFragment

text \<open>The regular expression of a route of the fragment, run on a path: the captures, or
  \<^const>\<open>None\<close> for \<^verbatim>\<open>null\<close>. For a route outside the fragment this function has no answer,
  which it says with \<^const>\<open>RegExpOutsideFragment\<close>.\<close>

definition route_exec :: "string \<Rightarrow> string \<Rightarrow> failure + string list option" where
  "route_exec route path =
     (case new_RegExp (scan_route route) of
        None \<Rightarrow> Inl RegExpOutsideFragment
      | Some r \<Rightarrow> Inr (rx_exec r path))"

section \<open>The request parser\<close>

record HttpReq =
  req_method :: string
  endpoint :: "string option"
  params :: "(string \<times> string) list"
  headers :: "(string \<times> string) list"
  body :: "string option"

text \<open>
  One step of the \<^verbatim>\<open>reduce\<close> over the header lines: the key is
  \<^verbatim>\<open>v.split(':')[0].replace('-', '_').toLowerCase()\<close>, the value is
  \<^verbatim>\<open>v.split(':')[1].trim()\<close>. A line without a colon has no second piece, and
  \<^verbatim>\<open>trim\<close> of \<^verbatim>\<open>undefined\<close> throws a \<^verbatim>\<open>TypeError\<close>.
\<close>

definition header_key :: "string \<Rightarrow> string" where
  "header_key v =
     (case js_split (CHR '':'') v of
        [] \<Rightarrow> []
      | p0 # ps \<Rightarrow> toLowerCase (replace_first (CHR ''-'') (CHR ''_'') p0))"

definition header_value :: "string \<Rightarrow> failure + string" where
  "header_value v =
     (case js_index (js_split (CHR '':'') v) 1 of
        None \<Rightarrow> Inl TypeError
      | Some p1 \<Rightarrow> Inr (js_trim p1))"

definition header_entry :: "string \<Rightarrow> failure + string \<times> string" where
  "header_entry v =
     (case header_value v of
        Inl e \<Rightarrow> Inl e
      | Inr x \<Rightarrow> Inr (header_key v, x))"

fun reduce_headers ::
  "(string \<times> string) list \<Rightarrow> string list \<Rightarrow> failure + (string \<times> string) list" where
  "reduce_headers a [] = Inr a"
| "reduce_headers a (v # vs) =
     (case header_entry v of
        Inl e \<Rightarrow> Inl e
      | Inr (k, x) \<Rightarrow> reduce_headers (map_set k x a) vs)"

text \<open>\<^verbatim>\<open>specialCharSplit.slice(1, specialCharSplit.length - 2)\<close>.\<close>

definition header_lines :: "string list \<Rightarrow> string list" where
  "header_lines specialCharSplit =
     js_slice 1 (int (length specialCharSplit) - 2) specialCharSplit"

text \<open>\<^verbatim>\<open>specialCharSplit.slice(-1)[0]\<close>.\<close>

definition body_line :: "string list \<Rightarrow> string option" where
  "body_line specialCharSplit =
     js_index (js_slice (- 1) (int (length specialCharSplit)) specialCharSplit) 0"

text \<open>
  \<^verbatim>\<open>this.params[name] = value\<close> on the object that starts as \<^verbatim>\<open>{}\<close>. The name
  \<^verbatim>\<open>__proto__\<close> is the accessor of \<^verbatim>\<open>Object.prototype\<close>, whose setter ignores a string:
  for that name nothing is stored.
\<close>

definition assign_param ::
  "string \<Rightarrow> string \<Rightarrow> (string \<times> string) list \<Rightarrow> (string \<times> string) list" where
  "assign_param n v ps = (if n = ''__proto__'' then ps else map_set n v ps)"

text \<open>
  \<^verbatim>\<open>paramNames.forEach\<close>: the name at \<open>idx\<close> is bound to \<^verbatim>\<open>match[idx + 1]\<close> (an
  expression of the fragment has one group for each name).
\<close>

definition bind_params ::
  "string list \<Rightarrow> string list \<Rightarrow> (string \<times> string) list \<Rightarrow> (string \<times> string) list" where
  "bind_params names caps ps = fold (\<lambda>(n, v). assign_param n v) (zip names caps) ps"

text \<open>
  What one turn of the loop over the routes does with a route: \<^verbatim>\<open>new RegExp\<close> throws
  (a \<^verbatim>\<open>SyntaxError\<close>) or gives an expression, and the expression, run on a path, gives \<^verbatim>\<open>null\<close> or the parameters
  bound by the match. For a route of the fragment this is computed here. For any other
  route it is the parameter \<open>other\<close>, which stands for the regular expression engine of
  JavaScript on the routes that this theory does not interpret.
\<close>

type_synonym RegExp_result = "failure + (string \<Rightarrow> (string \<times> string) list option)"

definition route_regex :: "(string \<Rightarrow> RegExp_result) \<Rightarrow> string \<Rightarrow> RegExp_result" where
  "route_regex other route =
     (case new_RegExp (scan_route route) of
        None \<Rightarrow> other route
      | Some r \<Rightarrow>
          Inr (\<lambda>path. map_option (\<lambda>caps. bind_params (paramNames (scan_route route)) caps [])
                        (rx_exec r path)))"

definition route_step ::
  "(string \<Rightarrow> RegExp_result) \<Rightarrow> string \<Rightarrow> string \<Rightarrow> failure + (string \<times> string) list option" where
  "route_step other route path =
     (case route_regex other route of Inl e \<Rightarrow> Inl e | Inr m \<Rightarrow> Inr (m path))"

text \<open>
  The loop over the registered routes, in the order of registration. The first route whose
  expression matches becomes the endpoint, with the parameters of the match; a route whose
  expression does not match is passed over. \<^verbatim>\<open>this.endpoint\<close> is \<^verbatim>\<open>undefined\<close> when
  the request has no space in it, and \<^verbatim>\<open>undefined.match\<close> throws.
\<close>

fun match_routes ::
  "(string \<Rightarrow> RegExp_result) \<Rightarrow> string option \<Rightarrow> string list
    \<Rightarrow> failure + string option \<times> (string \<times> string) list" where
  "match_routes other ep [] = Inr (ep, [])"
| "match_routes other ep (route # routes) =
     (case route_regex other route of
        Inl e \<Rightarrow> Inl e
      | Inr m \<Rightarrow>
          (case ep of
             None \<Rightarrow> Inl TypeError
           | Some path \<Rightarrow>
               (case m path of
                  Some ps \<Rightarrow> Inr (Some route, ps)
                | None \<Rightarrow> match_routes other ep routes)))"

definition method_token :: "string \<Rightarrow> string" where
  "method_token req = (case js_split (CHR '' '') req of [] \<Rightarrow> [] | m # ms \<Rightarrow> m)"

definition path_token :: "string \<Rightarrow> string option" where
  "path_token req = js_index (js_split (CHR '' '') req) 1"

text \<open>
  The constructor of \<^verbatim>\<open>RequestBuilder\<close> followed by \<^verbatim>\<open>build\<close>. The routes are the keys
  of the method's \<^verbatim>\<open>Map\<close>; for a method that has none the argument is
  \<^verbatim>\<open>undefined\<close>, and iterating over it throws once the headers are read.
\<close>

definition RequestBuilder ::
  "(string \<Rightarrow> RegExp_result) \<Rightarrow> string \<Rightarrow> (string \<times> 'h) list option \<Rightarrow> failure + HttpReq" where
  "RequestBuilder other req registeredRoutes =
     (let specialCharSplit = split_crlf req in
      case reduce_headers [] (header_lines specialCharSplit) of
        Inl e \<Rightarrow> Inl e
      | Inr hs \<Rightarrow>
          (case registeredRoutes of
             None \<Rightarrow> Inl TypeError
           | Some routes \<Rightarrow>
               (case match_routes other (path_token req) (map fst routes) of
                  Inl e \<Rightarrow> Inl e
                | Inr (ep, ps) \<Rightarrow>
                    Inr \<lparr>req_method = method_token req, endpoint = ep, params = ps,
                         headers = hs, body = body_line specialCharSplit\<rparr>)))"

section \<open>The response writer\<close>

datatype StatusCode = S200 | S201 | S404

fun status_text :: "StatusCode \<Rightarrow> string" where
  "status_text S200 = ''200''"
| "status_text S201 = ''201''"
| "status_text S404 = ''404''"

fun ReasonPhrases :: "StatusCode \<Rightarrow> string" where
  "ReasonPhrases S200 = ''OK''"
| "ReasonPhrases S201 = ''Created''"
| "ReasonPhrases S404 = ''Not Found''"

text \<open>What \<^verbatim>\<open>send\<close> is given: an object (here the text \<^verbatim>\<open>JSON.stringify\<close> returns for
  it), a string or a \<^verbatim>\<open>Buffer\<close>; no argument is \<^const>\<open>None\<close>.\<close>

datatype ResType = Object string | Text string | Buffer string

text \<open>The local \<^verbatim>\<open>body\<close> of \<^verbatim>\<open>send\<close> is a string or a \<^verbatim>\<open>Buffer\<close>. In
  \<^verbatim>\<open>if (body)\<close> an empty string is false and a \<^verbatim>\<open>Buffer\<close> is true, empty or not.\<close>

datatype body = StrBody string | BufBody string

fun body_bytes :: "body \<Rightarrow> string" where
  "body_bytes (StrBody s) = s"
| "body_bytes (BufBody b) = b"

fun body_truthy :: "body \<Rightarrow> bool" where
  "body_truthy (StrBody s) = (s \<noteq> [])"
| "body_truthy (BufBody b) = True"

text \<open>A response: its fields, and the chunks it has written to its socket.\<close>

record HttpRes =
  statusCode :: StatusCode
  res_headers :: "(string \<times> string) list"
  encode :: bool
  socket :: "string list"

definition new_HttpRes :: "bool \<Rightarrow> HttpRes" where
  "new_HttpRes enc = \<lparr>statusCode = S404, res_headers = [], encode = enc, socket = []\<rparr>"

definition status :: "StatusCode \<Rightarrow> HttpRes \<Rightarrow> HttpRes" where
  "status c res = res\<lparr>statusCode := c\<rparr>"

definition header :: "string \<Rightarrow> string \<Rightarrow> HttpRes \<Rightarrow> HttpRes" where
  "header k v res = res\<lparr>res_headers := map_set k v (res_headers res)\<rparr>"

definition status_line :: "StatusCode \<Rightarrow> string" where
  "status_line c = ''HTTP/1.1 '' @ status_text c @ '' '' @ ReasonPhrases c @ CRLF"

definition header_text :: "(string \<times> string) list \<Rightarrow> string" where
  "header_text hs = concat (map (\<lambda>(a, b). a @ '': '' @ b @ CRLF) hs)"

text \<open>The headers set from the type of the data, and the body.\<close>

definition typed_body :: "ResType option \<Rightarrow> HttpRes \<Rightarrow> HttpRes \<times> body" where
  "typed_body data res =
     (case data of
        Some (Object jsonData) \<Rightarrow>
          (header ''Content-Length'' (toString (length jsonData))
             (header ''Content-Type'' ''application/json'' res), StrBody jsonData)
      | Some (Text d) \<Rightarrow>
          (header ''Content-Length'' (toString (length d))
             (header ''Content-Type'' ''text/plain'' res), StrBody d)
      | Some (Buffer d) \<Rightarrow>
          (header ''Content-Length'' (toString (length d))
             (header ''Content-Type'' ''application/octet-stream'' res), BufBody d)
      | None \<Rightarrow> (res, StrBody []))"

text \<open>
  The \<^verbatim>\<open>try\<close> block of \<^verbatim>\<open>send\<close>. \<^verbatim>\<open>zlib.gzipSync\<close> is a parameter: \<^const>\<open>None\<close>
  when it throws, and then the catch block leaves body and headers as they were.
\<close>

definition encoded_body :: "(string \<Rightarrow> string option) \<Rightarrow> HttpRes \<times> body \<Rightarrow> HttpRes \<times> body" where
  "encoded_body gzipSync rb =
     (case rb of (res, b) \<Rightarrow>
        if encode res then
          (case gzipSync (body_bytes b) of
             Some z \<Rightarrow>
               (header ''Content-Length'' (toString (length z))
                  (header ''Content-Encoding'' ''gzip'' res), BufBody z)
           | None \<Rightarrow> (res, b))
        else (res, b))"

definition send :: "(string \<Rightarrow> string option) \<Rightarrow> ResType option \<Rightarrow> HttpRes \<Rightarrow> HttpRes" where
  "send gzipSync data res0 =
     (case encoded_body gzipSync (typed_body data res0) of (res, b) \<Rightarrow>
        res\<lparr>socket :=
              socket res
              @ [status_line (statusCode res) @ header_text (res_headers res) @ CRLF]
              @ (if body_truthy b then [body_bytes b] else [])\<rparr>)"

section \<open>The connection handler\<close>

text \<open>
  What the handlers see of the machine: the last command-line argument
  (\<^verbatim>\<open>process.argv.slice(-1)\<close>, the served directory), the files that
  \<^verbatim>\<open>fs.readFileSync\<close> can read, and the paths where \<^verbatim>\<open>fs.writeFileSync\<close> succeeds.
\<close>

record world =
  directory :: string
  files :: "string \<Rightarrow> string option"
  writable :: "string \<Rightarrow> bool"

type_synonym HttpEndpoint =
  "(string \<Rightarrow> string option) \<Rightarrow> world \<Rightarrow> HttpReq \<Rightarrow> HttpRes \<Rightarrow> world \<times> HttpRes"

record HttpServer =
  GET :: "(string \<times> HttpEndpoint) list"
  POST :: "(string \<times> HttpEndpoint) list"

definition new_HttpServer :: HttpServer where
  "new_HttpServer = \<lparr>GET = [], POST = []\<rparr>"

definition get :: "string \<Rightarrow> HttpEndpoint \<Rightarrow> HttpServer \<Rightarrow> HttpServer" where
  "get url callback srv = srv\<lparr>GET := map_set url callback (GET srv)\<rparr>"

definition post :: "string \<Rightarrow> HttpEndpoint \<Rightarrow> HttpServer \<Rightarrow> HttpServer" where
  "post url callback srv = srv\<lparr>POST := map_set url callback (POST srv)\<rparr>"

text \<open>\<^verbatim>\<open>this.endpoints.get(m)\<close>: the outer \<^verbatim>\<open>Map\<close> has the keys GET and POST only.\<close>

definition endpoints_get :: "HttpServer \<Rightarrow> string \<Rightarrow> (string \<times> HttpEndpoint) list option" where
  "endpoints_get srv m =
     (if m = ''GET'' then Some (GET srv) else if m = ''POST'' then Some (POST srv) else None)"

definition AcceptableEncoding :: "string list" where
  "AcceptableEncoding = [''gzip'']"

text \<open>The encoding decision, from the parsed headers of the request.\<close>

definition encoding_decision :: "(string \<times> string) list \<Rightarrow> bool" where
  "encoding_decision hs =
     (case map_get hs ''accept_encoding'' of
        None \<Rightarrow> False
      | Some accept_encoding \<Rightarrow>
          if accept_encoding = [] then False
          else if length (js_split (CHR '','') accept_encoding) > 1 then
            (let formats = map js_trim (js_split (CHR '','') accept_encoding);
                 encodings = filter (\<lambda>i. i \<in> set formats) AcceptableEncoding
             in length encodings > 0)
          else accept_encoding \<in> set AcceptableEncoding)"

definition bare_404 :: string where
  "bare_404 = ''HTTP/1.1 404 Not Found'' @ CRLF @ CRLF"

text \<open>\<^verbatim>\<open>methodEndpoints?.get(req.endpoint)\<close>.\<close>

definition find_callback ::
  "(string \<times> HttpEndpoint) list option \<Rightarrow> string option \<Rightarrow> HttpEndpoint option" where
  "find_callback methodEndpoints ep =
     (case methodEndpoints of
        None \<Rightarrow> None
      | Some routes \<Rightarrow> (case ep of None \<Rightarrow> None | Some e \<Rightarrow> map_get routes e))"

text \<open>
  The listener of the \<^verbatim>\<open>data\<close> event. It returns the world after the handler and the
  chunks written to the socket, or the exception that leaves the listener. Its first two
  arguments are the two parts of the JavaScript runtime that are parameters here,
  \<^verbatim>\<open>zlib.gzipSync\<close> and the regular expressions outside the fragment.
\<close>

definition on_data ::
  "(string \<Rightarrow> string option) \<Rightarrow> (string \<Rightarrow> RegExp_result) \<Rightarrow> HttpServer \<Rightarrow> world \<Rightarrow> string
    \<Rightarrow> failure + world \<times> string list" where
  "on_data gzipSync other srv w data =
     (let methodEndpoints = endpoints_get srv (method_token data) in
      case RequestBuilder other data methodEndpoints of
        Inl e \<Rightarrow> Inl e
      | Inr req \<Rightarrow>
          (case find_callback methodEndpoints (endpoint req) of
             Some callback \<Rightarrow>
               (case callback gzipSync w req (new_HttpRes (encoding_decision (headers req))) of
                  (w', res) \<Rightarrow> Inr (w', socket res))
           | None \<Rightarrow> Inr (w, [bare_404])))"

section \<open>The application\<close>

definition get_root :: HttpEndpoint where
  "get_root gzipSync w req res = (w, send gzipSync None (status S200 res))"

definition get_echo :: HttpEndpoint where
  "get_echo gzipSync w req res =
     (w, send gzipSync (map_option Text (map_get (params req) ''str'')) (status S200 res))"

definition get_user_agent :: HttpEndpoint where
  "get_user_agent gzipSync w req res =
     (case map_get (headers req) ''user_agent'' of
        None \<Rightarrow> (w, send gzipSync (Some (Text ''No user-agent header found.'')) (status S404 res))
      | Some user_agent \<Rightarrow>
          if user_agent \<noteq> [] then (w, send gzipSync (Some (Text user_agent)) (status S200 res))
          else (w, send gzipSync (Some (Text ''No user-agent header found.'')) (status S404 res)))"

text \<open>\<^verbatim>\<open>readFileSync\<close> throws for a file it cannot read, and the handler catches it.\<close>

definition get_files :: HttpEndpoint where
  "get_files gzipSync w req res =
     (if truthy (map_get (params req) ''filename'') then
        (case map_get (params req) ''filename'' of
           None \<Rightarrow> (w, send gzipSync (Some (Text ''File not found'')) (status S404 res))
         | Some filename \<Rightarrow>
             (case files w (directory w @ filename) of
                Some file \<Rightarrow> (w, send gzipSync (Some (Buffer file)) (status S200 res))
              | None \<Rightarrow> (w, send gzipSync (Some (Text ''File not found'')) (status S404 res))))
      else (w, send gzipSync (Some (Text ''File not found'')) (status S404 res)))"

text \<open>Without a file name or with an empty body the handler returns without a word.\<close>

definition post_files :: HttpEndpoint where
  "post_files gzipSync w req res =
     (if truthy (map_get (params req) ''filename'') \<and> truthy (body req) then
        (case (map_get (params req) ''filename'', body req) of
           (Some filename, Some content) \<Rightarrow>
             if writable w (directory w @ filename) then
               (w\<lparr>files := (files w)(directory w @ filename \<mapsto> content)\<rparr>,
                send gzipSync None (status S201 res))
             else
               (w, send gzipSync (Some (Text ''Something went terrible wrong'')) (status S404 res))
         | _ \<Rightarrow> (w, res))
      else (w, res))"

definition app :: HttpServer where
  "app =
     post ''/files/:filename'' post_files
       (get ''/files/:filename'' get_files
         (get ''/user-agent'' get_user_agent
           (get ''/echo/:str'' get_echo
             (get ''/'' get_root new_HttpServer))))"

section \<open>The notions of the specification\<close>







text \<open>The header lines as the specification has them, all lines but the method line and
  the last one; the key, with every hyphen turned into an underscore; the value, the text
  after the first colon without one leading space.\<close>

definition spec_header_lines :: "string list \<Rightarrow> string list" where
  "spec_header_lines ls = butlast (tl ls)"

definition spec_header_key :: "string \<Rightarrow> string" where
  "spec_header_key name = map (\<lambda>c. if c = CHR ''-'' then CHR ''_'' else lower_char c) name"

definition spec_header_value :: "string \<Rightarrow> string" where
  "spec_header_value line =
     (case dropWhile (\<lambda>c. c \<noteq> CHR '':'') line of
        [] \<Rightarrow> []
      | colon # rest \<Rightarrow> (case rest of [] \<Rightarrow> [] | c # cs \<Rightarrow> if c = CHR '' '' then cs else c # cs))"

definition spec_header :: "string \<Rightarrow> string \<times> string" where
  "spec_header line =
     (spec_header_key (takeWhile (\<lambda>c. c \<noteq> CHR '':'') line), spec_header_value line)"

text \<open>What a handler does to its response before \<open>send\<close>: a sequence of calls of
  \<open>status\<close> and \<open>header\<close>. The status the specification expects on the wire is the
  argument of the last call of \<open>status\<close>, and 404 without one.\<close>

datatype call = Status StatusCode | Header string string

fun apply_call :: "call \<Rightarrow> HttpRes \<Rightarrow> HttpRes" where
  "apply_call (Status c) res = status c res"
| "apply_call (Header k v) res = header k v res"

fun statuses :: "call list \<Rightarrow> StatusCode list" where
  "statuses [] = []"
| "statuses (Status c # cs) = c # statuses cs"
| "statuses (Header k v # cs) = statuses cs"

definition spec_status :: "call list \<Rightarrow> StatusCode" where
  "spec_status cs = (if statuses cs = [] then S404 else last (statuses cs))"

text \<open>The status line of the specification, \<^verbatim>\<open>HTTP/1.1\<close>, the code, the reason phrase
  and the line end, written out for each code.\<close>

fun spec_status_line :: "StatusCode \<Rightarrow> string" where
  "spec_status_line S200 = ''HTTP/1.1 200 OK'' @ [CR, LF]"
| "spec_status_line S201 = ''HTTP/1.1 201 Created'' @ [CR, LF]"
| "spec_status_line S404 = ''HTTP/1.1 404 Not Found'' @ [CR, LF]"

text \<open>The body before compression.\<close>

fun data_bytes :: "ResType option \<Rightarrow> string" where
  "data_bytes None = []"
| "data_bytes (Some (Object jsonData)) = jsonData"
| "data_bytes (Some (Text d)) = d"
| "data_bytes (Some (Buffer d)) = d"

section \<open>Auxiliary notions of the proofs\<close>





declare toString.simps [simp del]

section \<open>Sample values\<close>

text \<open>A stand-in for \<^verbatim>\<open>zlib\<close> in the examples: the gzip streams of the empty text and
  of \<^verbatim>\<open>hello\<close>, and the two functions between them and their texts.\<close>

definition gzip_of_empty :: string where
  "gzip_of_empty =
     [CHR 0x1F, CHR 0x8B, CHR 0x08, CHR 0x00, CHR 0x00, CHR 0x00, CHR 0x00, CHR 0x00,
      CHR 0x00, CHR 0x03, CHR 0x03, CHR 0x00, CHR 0x00, CHR 0x00, CHR 0x00, CHR 0x00,
      CHR 0x00, CHR 0x00, CHR 0x00, CHR 0x00]"

definition gzip_of_hello :: string where
  "gzip_of_hello =
     [CHR 0x1F, CHR 0x8B, CHR 0x08, CHR 0x00, CHR 0x00, CHR 0x00, CHR 0x00, CHR 0x00,
      CHR 0x00, CHR 0x03, CHR 0xCB, CHR 0x48, CHR 0xCD, CHR 0xC9, CHR 0xC9, CHR 0x07,
      CHR 0x00, CHR 0x86, CHR 0xA6, CHR 0x10, CHR 0x36, CHR 0x05, CHR 0x00, CHR 0x00,
      CHR 0x00]"

definition sample_gzipSync :: "string \<Rightarrow> string option" where
  "sample_gzipSync b =
     (if b = [] then Some gzip_of_empty
      else if b = ''hello'' then Some gzip_of_hello else None)"


text \<open>A stand-in for the regular expressions outside the fragment in the examples: every
  such route gives an expression that matches no path.\<close>

definition sample_RegExp :: "string \<Rightarrow> RegExp_result" where
  "sample_RegExp route = Inr (\<lambda>path. None)"

text \<open>A machine for the examples: nothing to read, everything writable.\<close>

definition sample_world :: world where
  "sample_world = \<lparr>directory = ''/tmp/'', files = Map.empty, writable = (\<lambda>p. True)\<rparr>"

text \<open>A request with three header lines.\<close>

definition sample_request :: string where
  "sample_request =
     ''GET /user-agent HTTP/1.1'' @ CRLF @ ''Host: localhost'' @ CRLF
     @ ''User-Agent:  curl/8.0 '' @ CRLF @ ''Accept: text/plain'' @ CRLF @ CRLF"

section \<open>Facts about scanning and matching\<close>









lemma rx_group_Some:
  "rx_group r s n = Some caps \<Longrightarrow>
     \<exists>k caps'. 0 < k \<and> k \<le> n \<and> caps = take k s # caps' \<and> rx_exec r (drop k s) = Some caps'"
proof (induction n)
  case 0
  then show ?case by simp
next
  case (Suc n)
  show ?case
  proof (cases "rx_exec r (drop (Suc n) s)")
    case None
    with Suc obtain k caps' where "0 < k" "k \<le> n" "caps = take k s # caps'"
      "rx_exec r (drop k s) = Some caps'" by auto
    then show ?thesis by (metis le_Suc_eq)
  next
    case (Some a)
    with Suc.prems have "caps = take (Suc n) s # a" by simp
    with Some show ?thesis by blast
  qed
qed












lemma group_captures:
  "rx_group r s n = Some caps \<Longrightarrow> n \<le> length (takeWhile is_group_char s) \<Longrightarrow>
     (\<forall>path cs. rx_exec r path = Some cs \<longrightarrow> list_all (\<lambda>v. v \<noteq> [] \<and> list_all is_group_char v) cs)
     \<Longrightarrow> list_all (\<lambda>v. v \<noteq> [] \<and> list_all is_group_char v) caps"
proof -
  assume g: "rx_group r s n = Some caps" and n: "n \<le> length (takeWhile is_group_char s)"
    and ih: "\<forall>path cs. rx_exec r path = Some cs \<longrightarrow> list_all (\<lambda>v. v \<noteq> [] \<and> list_all is_group_char v) cs"
  from rx_group_Some[OF g] obtain k caps' where k: "0 < k" "k \<le> n"
      and caps: "caps = take k s # caps'"
      and r: "rx_exec r (drop k s) = Some caps'" by blast
  have "take k s = take k (takeWhile is_group_char s)"
    using k(2) n by (metis append_eq_conv_conj takeWhile_dropWhile_id take_append diff_is_0_eq take_0 append_Nil2 le_trans)
  then have gc: "list_all is_group_char (take k s)"
    by (metis in_set_takeD list_all_iff set_takeWhileD)
  have "k \<le> length s" using k(2) n length_takeWhile_le le_trans by blast
  then have ne: "take k s \<noteq> []" using k(1) by auto
  from ih r have "list_all (\<lambda>v. v \<noteq> [] \<and> list_all is_group_char v) caps'" by blast
  with caps gc ne show ?thesis by simp
qed

lemma rx_exec_captures:
  "rx_exec r path = Some caps \<Longrightarrow> list_all (\<lambda>v. v \<noteq> [] \<and> list_all is_group_char v) caps"
proof (induction r arbitrary: path caps)
  case Nil
  then show ?case by simp
next
  case (Cons t r)
  show ?case
  proof (cases t)
    case (Lit c)
    with Cons show ?thesis by (auto split: list.splits if_splits)
  next
    case Dot
    with Cons show ?thesis by (auto split: list.splits if_splits)
  next
    case Eoi
    with Cons show ?thesis by (auto split: list.splits if_splits)
  next
    case Group
    with Cons.prems have "rx_group r path (length (takeWhile is_group_char path)) = Some caps"
      by simp
    from group_captures[OF this] Cons.IH show ?thesis by blast
  qed
qed

lemma slash_not_group_char: "\<not> is_group_char (CHR ''/'')"
  by (simp add: is_group_char_def is_word_def code_def)

lemma route_exec_captures:
  "route_exec P path = Inr (Some caps) \<Longrightarrow>
     \<forall>v \<in> set caps. v \<noteq> [] \<and> list_all is_group_char v \<and> CHR ''/'' \<notin> set v"
proof -
  assume "route_exec P path = Inr (Some caps)"
  then obtain r where "rx_exec r path = Some caps"
    by (auto simp: route_exec_def split: option.splits)
  from rx_exec_captures[OF this] show ?thesis
    using slash_not_group_char by (auto simp: list_all_iff)
qed

lemma route_exec_step:
  "route_exec r path = Inr x \<Longrightarrow>
     route_step other r path
       = Inr (map_option (\<lambda>caps. bind_params (paramNames (scan_route r)) caps []) x)"
  by (auto simp: route_exec_def route_step_def route_regex_def split: option.splits)

lemma match_routes_first:
  "\<forall>r\<in>set earlier. route_step other r path = Inr None
     \<Longrightarrow> route_step other P path = Inr (Some ps)
     \<Longrightarrow> match_routes other (Some path) (earlier @ P # later) = Inr (Some P, ps)"
  by (induction earlier) (auto simp: route_step_def split: sum.splits)

lemma match_routes_none:
  "\<forall>r\<in>set routes. route_step other r path = Inr None \<Longrightarrow>
   match_routes other (Some path) routes = Inr (Some path, [])"
  by (induction routes) (auto simp: route_step_def split: sum.splits)

lemma map_of_map_set: "map_of (map_set k v kvs) = (map_of kvs)(k \<mapsto> v)"
  by (induction kvs) auto



lemma bind_params_proto: "bind_params [''__proto__''] [v] [] = []"
  by (simp add: bind_params_def assign_param_def)


section \<open>Facts about the response writer\<close>

lemma map_get_map_set:
  "map_get (map_set k v kvs) k' = (if k' = k then Some v else map_get kvs k')"
  by (simp add: map_get_def map_of_map_set)

lemma header_fields [simp]:
  "statusCode (header k v res) = statusCode res"
  "encode (header k v res) = encode res"
  "socket (header k v res) = socket res"
  "res_headers (header k v res) = map_set k v (res_headers res)"
  by (simp_all add: header_def)

lemma status_fields [simp]:
  "statusCode (status c res) = c"
  "encode (status c res) = encode res"
  "socket (status c res) = socket res"
  "res_headers (status c res) = res_headers res"
  by (simp_all add: status_def)

lemma typed_body_fields [simp]:
  "statusCode (fst (typed_body data res)) = statusCode res"
  "encode (fst (typed_body data res)) = encode res"
  "socket (fst (typed_body data res)) = socket res"
  "body_bytes (snd (typed_body data res)) = data_bytes data"
  by (auto simp: typed_body_def split: option.splits ResType.splits)



lemma send_statusCode: "statusCode (send gzipSync data res) = statusCode res"
  by (simp add: send_def encoded_body_def split_beta split: option.splits)


lemma send_gzip:
  assumes "encode res" and "gzipSync (data_bytes data) = Some z"
  shows "send gzipSync data res =
     (header ''Content-Length'' (toString (length z))
        (header ''Content-Encoding'' ''gzip'' (fst (typed_body data res))))
     \<lparr>socket := socket res
        @ [status_line (statusCode res)
           @ header_text (map_set ''Content-Length'' (toString (length z))
               (map_set ''Content-Encoding'' ''gzip'' (res_headers (fst (typed_body data res)))))
           @ CRLF, z]\<rparr>"
  using assms by (simp add: send_def encoded_body_def split_beta)

lemma fold_calls_status:
  "statusCode (fold apply_call calls res)
     = (if statuses calls = [] then statusCode res else last (statuses calls))"
  by (induction calls arbitrary: res rule: statuses.induct) auto

lemma apply_call_socket: "socket (apply_call c res) = socket res"
  by (cases c) simp_all

lemma fold_calls_socket: "socket (fold apply_call calls res) = socket res"
  by (induction calls arbitrary: res) (simp_all add: apply_call_socket)

lemma send_head:
  "\<exists>body. socket (send gzipSync data res)
      = socket res @ (status_line (statusCode res)
                       @ header_text (res_headers (send gzipSync data res)) @ CRLF) # body"
  by (simp add: send_def encoded_body_def split_beta split: option.splits)

section \<open>Facts about the request parser\<close>

lemma js_split_no_separator: "d \<notin> set s \<Longrightarrow> js_split d s = [s]"
  by (induction s) auto

lemma js_split_first: "d \<notin> set a \<Longrightarrow> js_split d (a @ d # b) = a # js_split d b"
  by (induction a) auto

lemma map_replace_absent: "a \<notin> set s \<Longrightarrow> map (\<lambda>c. if c = a then b else c) s = s"
  by (induction s) auto

lemma replace_first_once:
  "count_list s a \<le> 1 \<Longrightarrow> replace_first a b s = map (\<lambda>c. if c = a then b else c) s"
proof (induction s)
  case Nil
  then show ?case by simp
next
  case (Cons c cs)
  show ?case
  proof (cases "c = a")
    case True
    with Cons.prems have "count_list cs a = 0" by simp
    then have "a \<notin> set cs" by (simp add: count_list_0_iff)
    with True show ?thesis by (simp add: map_replace_absent)
  next
    case False
    with Cons show ?thesis by simp
  qed
qed

lemma lower_char_underscore:
  "lower_char (if c = CHR ''-'' then CHR ''_'' else c)
     = (if c = CHR ''-'' then CHR ''_'' else lower_char c)"
  by (simp add: lower_char_def code_def)

lemma header_key_one_hyphen:
  assumes "CHR '':'' \<notin> set name" and "count_list name (CHR ''-'') \<le> 1"
  shows "header_key (name @ '':'' @ val) = spec_header_key name"
proof -
  have "js_split (CHR '':'') (name @ CHR '':'' # val) = name # js_split (CHR '':'') val"
    using assms(1) by (rule js_split_first)
  then show ?thesis
    using replace_first_once[OF assms(2)]
    by (simp add: header_key_def toLowerCase_def spec_header_key_def lower_char_underscore)
qed

lemma header_value_one_colon:
  assumes "CHR '':'' \<notin> set name" and "CHR '':'' \<notin> set val"
  shows "header_value (name @ '':'' @ val) = Inr (js_trim val)"
proof -
  have "js_split (CHR '':'') (name @ CHR '':'' # val) = [name, val]"
    using js_split_first[OF assms(1)] js_split_no_separator[OF assms(2)] by simp
  then show ?thesis by (simp add: header_value_def js_index_def)
qed

lemma header_lines_butlast: "header_lines ls = butlast (butlast (tl ls))"
proof (cases ls)
  case Nil
  then show ?thesis by (simp add: header_lines_def js_slice_def)
next
  case (Cons l rest)
  have "butlast (butlast rest) = take (length rest - 2) rest"
    by (simp add: butlast_conv_take numeral_2_eq_2)
  then show ?thesis using Cons
    by (cases "length rest < 2") (auto simp: header_lines_def js_slice_def Let_def nat_diff_distrib)
qed

lemma reduce_headers_append:
  "reduce_headers a (xs @ ys)
     = (case reduce_headers a xs of Inl e \<Rightarrow> Inl e | Inr a' \<Rightarrow> reduce_headers a' ys)"
  by (induction xs arbitrary: a) (auto split: sum.splits)

lemma header_entry_key: "header_entry l = Inr (k, x) \<Longrightarrow> k = header_key l"
  by (auto simp: header_entry_def split: sum.splits)

lemma reduce_headers_keeps:
  "reduce_headers a ys = Inr hs \<Longrightarrow> map_get a k = Some v
     \<Longrightarrow> \<forall>l \<in> set ys. header_key l \<noteq> k \<Longrightarrow> map_get hs k = Some v"
proof (induction ys arbitrary: a)
  case Nil
  then show ?case by simp
next
  case (Cons y ys)
  from Cons.prems(1) obtain k' x where e: "header_entry y = Inr (k', x)"
    and r: "reduce_headers (map_set k' x a) ys = Inr hs"
    by (auto split: sum.splits)
  have "k' \<noteq> k" using header_entry_key[OF e] Cons.prems(3) by simp
  then have "map_get (map_set k' x a) k = Some v"
    using Cons.prems(2) by (simp add: map_get_map_set)
  from Cons.IH[OF r this] Cons.prems(3) show ?case by simp
qed

lemma header_entry_slips:
  "header_entry ''Host: localhost:4221'' = Inr (''host'', ''localhost'')"
  "header_key ''X-Forwarded-For: 10.0.0.1'' = ''x_forwarded-for''"
  "header_entry ''no colon here'' = Inl TypeError"
  by code_simp+

section \<open>Facts about the connection handler\<close>

lemma RequestBuilder_no_match:
  assumes "reduce_headers [] (header_lines (split_crlf data)) = Inr hs"
    and "path_token data = Some path"
    and "\<forall>r \<in> set (map fst routes). route_exec r path = Inr None"
  shows "RequestBuilder other data (Some routes)
           = Inr \<lparr>req_method = method_token data, endpoint = Some path, params = [],
                  headers = hs, body = body_line (split_crlf data)\<rparr>"
proof -
  have "\<forall>r \<in> set (map fst routes). route_step other r path = Inr None"
    using assms(3) route_exec_step[of _ path None other] by simp
  from match_routes_none[OF this] assms(1,2) show ?thesis
    by (simp add: RequestBuilder_def)
qed

lemma on_data_no_route:
  assumes "endpoints_get srv (method_token data) = Some routes"
    and "reduce_headers [] (header_lines (split_crlf data)) = Inr hs"
    and "path_token data = Some path"
    and "\<forall>r \<in> set (map fst routes). route_exec r path = Inr None"
    and "map_get routes path = None"
  shows "on_data gzipSync other srv w data = Inr (w, [bare_404])"
  using assms(1,5) RequestBuilder_no_match[OF assms(2,3,4), of other]
  by (simp add: on_data_def find_callback_def)

lemma bare_404_text: "bare_404 = ''HTTP/1.1 404 Not Found'' @ [CR, LF, CR, LF]"
  by (simp add: bare_404_def CRLF_def)

lemma app_GET:
  "GET app = [(''/'', get_root), (''/echo/:str'', get_echo), (''/user-agent'', get_user_agent),
              (''/files/:filename'', get_files)]"
  by (simp add: app_def get_def post_def new_HttpServer_def)

lemma app_POST: "POST app = [(''/files/:filename'', post_files)]"
  by (simp add: app_def get_def post_def new_HttpServer_def)

lemma RequestBuilder_match:
  assumes "reduce_headers [] (header_lines (split_crlf data)) = Inr hs"
    and "path_token data = Some path"
    and "\<forall>r \<in> set earlier. route_exec r path = Inr None"
    and "route_exec P path = Inr (Some caps)"
    and "map fst routes = earlier @ P # later"
  shows "RequestBuilder other data (Some routes)
           = Inr \<lparr>req_method = method_token data, endpoint = Some P,
                  params = bind_params (paramNames (scan_route P)) caps [],
                  headers = hs, body = body_line (split_crlf data)\<rparr>"
proof -
  have e: "\<forall>r \<in> set earlier. route_step other r path = Inr None"
    using assms(3) route_exec_step[of _ path None other] by simp
  have m: "route_step other P path
             = Inr (Some (bind_params (paramNames (scan_route P)) caps []))"
    using route_exec_step[OF assms(4), of other] by simp
  from match_routes_first[OF e m, of later] assms(1,2,5) show ?thesis
    by (simp add: RequestBuilder_def)
qed

lemma file_not_found_response:
  "socket (send gzipSync (Some (Text ''File not found'')) (status S404 (new_HttpRes False)))
     = [''HTTP/1.1 404 Not Found'' @ CRLF @ ''Content-Type: text/plain'' @ CRLF
        @ ''Content-Length: 14'' @ CRLF @ CRLF, ''File not found'']"
  by code_simp

lemma get_missing_file:
  assumes "method_token data = ''GET''"
    and "reduce_headers [] (header_lines (split_crlf data)) = Inr hs"
    and "\<not> encoding_decision hs"
    and "path_token data = Some path"
    and "\<forall>r \<in> set [''/'', ''/echo/:str'', ''/user-agent'']. route_exec r path = Inr None"
    and "route_exec ''/files/:filename'' path = Inr (Some [filename])"
    and "files w (directory w @ filename) = None"
  shows "on_data gzipSync other app w data
       = Inr (w, [''HTTP/1.1 404 Not Found'' @ CRLF @ ''Content-Type: text/plain'' @ CRLF
                  @ ''Content-Length: 14'' @ CRLF @ CRLF, ''File not found''])"
proof -
  have e: "endpoints_get app (method_token data) = Some (GET app)"
    using assms(1) by (simp add: endpoints_get_def)
  have n: "paramNames (scan_route ''/files/:filename'') = [''filename'']" by code_simp
  have b: "bind_params (paramNames (scan_route ''/files/:filename'')) [filename] []
             = [(''filename'', filename)]"
    unfolding n by (simp add: bind_params_def assign_param_def)
  have mf: "map fst (GET app) = [''/'', ''/echo/:str'', ''/user-agent''] @ ''/files/:filename'' # []"
    by (simp add: app_GET)
  note r = RequestBuilder_match[OF assms(2,4,5,6) mf, of other, unfolded b]
  have ne: "filename \<noteq> []"
    using route_exec_captures[OF assms(6)] by simp
  show ?thesis
    using e r ne assms(3,7) file_not_found_response[of gzipSync]
    by (simp add: on_data_def find_callback_def app_GET map_get_def get_files_def truthy_def)
qed

section \<open>Route matching\<close>







section \<open>Claims about the response writer\<close>

text \<open>
  Claim C6. Whatever calls of \<open>status\<close> and \<open>header\<close> a handler makes on a fresh
  response before \<open>send\<close>, the first chunk written starts with the status line of the
  specification for the code of the last call of \<open>status\<close>, and for 404 when there was no
  such call; the headers and the empty line follow.
\<close>

theorem last_status_wins:
  "hd (socket (send gzipSync data (fold apply_call calls (new_HttpRes enc))))
     = spec_status_line (spec_status calls)
       @ header_text (res_headers (send gzipSync data (fold apply_call calls (new_HttpRes enc))))
       @ CRLF"
proof -
  let ?res = "fold apply_call calls (new_HttpRes enc)"
  have sock: "socket ?res = []"
    by (simp add: fold_calls_socket new_HttpRes_def)
  have code: "statusCode ?res = spec_status calls"
    by (simp add: fold_calls_status spec_status_def new_HttpRes_def)
  have line: "status_line c = spec_status_line c" for c
    by (cases c) (simp_all add: status_line_def CRLF_def)
  show ?thesis
    using send_head[of gzipSync data ?res] sock code line by auto
qed

theorem last_status_wins_witness:
  "spec_status [] = S404
   \<and> hd (socket (send sample_gzipSync None (fold apply_call [] (new_HttpRes False))))
       = ''HTTP/1.1 404 Not Found'' @ [CR, LF, CR, LF]
   \<and> spec_status [Status S200, Header ''X-Id'' ''7'', Status S201] = S201
   \<and> hd (socket (send sample_gzipSync None
         (fold apply_call [Status S200, Header ''X-Id'' ''7'', Status S201] (new_HttpRes False))))
       = ''HTTP/1.1 201 Created'' @ [CR, LF] @ ''X-Id: 7'' @ [CR, LF, CR, LF]"
proof -
  let ?calls = "[Status S200, Header ''X-Id'' ''7'', Status S201]"
  have s1: "spec_status [] = S404" by code_simp
  have s2: "spec_status ?calls = S201" by code_simp
  have r1: "spec_status_line (spec_status [])
       @ header_text (res_headers (send sample_gzipSync None (fold apply_call [] (new_HttpRes False))))
       @ CRLF
     = ''HTTP/1.1 404 Not Found'' @ [CR, LF, CR, LF]"
    by code_simp
  have r2: "spec_status_line (spec_status ?calls)
       @ header_text (res_headers (send sample_gzipSync None
           (fold apply_call ?calls (new_HttpRes False))))
       @ CRLF
     = ''HTTP/1.1 201 Created'' @ [CR, LF] @ ''X-Id: 7'' @ [CR, LF, CR, LF]"
    by code_simp
  note t1 = trans[OF last_status_wins[of sample_gzipSync None "[]" False] r1]
  note t2 = trans[OF last_status_wins[of sample_gzipSync None ?calls False] r2]
  show ?thesis
    by (intro conjI s1 s2 t1 t2)
qed





text \<open>
  Claim C9. The response is to be compressed and \<open>send\<close> has no argument. Then the body
  written is what \<^verbatim>\<open>zlib.gzipSync\<close> returns for the empty text, which is not empty, and
  the headers have \<^verbatim>\<open>Content-Encoding: gzip\<close> and the length of that body as
  \<^verbatim>\<open>Content-Length\<close>.
\<close>

theorem bodyless_send_compressed:
  assumes "encode res" and "gzipSync [] = Some z" and "z \<noteq> []"
  shows "socket (send gzipSync None res)
           = socket res @ [status_line (statusCode res)
                            @ header_text (res_headers (send gzipSync None res)) @ CRLF, z]
     \<and> last (socket (send gzipSync None res)) \<noteq> []
     \<and> map_get (res_headers (send gzipSync None res)) ''Content-Encoding'' = Some ''gzip''
     \<and> map_get (res_headers (send gzipSync None res)) ''Content-Length''
         = Some (toString (length z))"
  using assms send_gzip[of res gzipSync None z]
  by (simp add: map_get_map_set)

theorem bodyless_send_compressed_witness:
  "encode (status S200 (new_HttpRes True))
   \<and> sample_gzipSync [] = Some gzip_of_empty
   \<and> gzip_of_empty \<noteq> []
   \<and> socket (send sample_gzipSync None (status S200 (new_HttpRes True)))
       = [''HTTP/1.1 200 OK'' @ CRLF @ ''Content-Encoding: gzip'' @ CRLF
          @ ''Content-Length: 20'' @ CRLF @ CRLF, gzip_of_empty]
   \<and> map_get (res_headers (send sample_gzipSync None (status S200 (new_HttpRes True))))
        ''Content-Encoding'' = Some ''gzip''"
proof -
  have h1: "encode (status S200 (new_HttpRes True))" by code_simp
  have h2: "sample_gzipSync [] = Some gzip_of_empty" by code_simp
  have h3: "gzip_of_empty \<noteq> []" by code_simp
  have e: "socket (send sample_gzipSync None (status S200 (new_HttpRes True)))
       = [''HTTP/1.1 200 OK'' @ CRLF @ ''Content-Encoding: gzip'' @ CRLF
          @ ''Content-Length: 20'' @ CRLF @ CRLF, gzip_of_empty]"
    by code_simp
  note t = bodyless_send_compressed[where gzipSync = sample_gzipSync, OF h1 h2 h3]
  show ?thesis
    by (intro conjI h1 h2 h3 e t[THEN conjunct2, THEN conjunct2, THEN conjunct1])
qed

section \<open>Claims about the connection handler\<close>

text \<open>
  Claim C5, as the code has it. The method of the request is GET or POST, so that it has a
  table of routes; the header lines are read without an exception; the request has a path,
  no route of the table matches it and it is no key of the table. Then the listener writes
  one chunk, \<^verbatim>\<open>HTTP/1.1 404 Not Found\<close> followed by two line ends, and makes no response
  object.
\<close>

theorem unmatched_route_bare_404:
  assumes "endpoints_get srv (method_token data) = Some routes"
    and "reduce_headers [] (header_lines (split_crlf data)) = Inr hs"
    and "path_token data = Some path"
    and "\<forall>r \<in> set (map fst routes). route_exec r path = Inr None"
    and "map_get routes path = None"
  shows "on_data gzipSync other srv w data
           = Inr (w, [''HTTP/1.1 404 Not Found'' @ [CR, LF, CR, LF]])"
  using on_data_no_route[OF assms] by (simp add: bare_404_text)

theorem unmatched_route_bare_404_witness:
  "method_token (''GET /unregistered/path HTTP/1.1'' @ CRLF @ ''Host: localhost'' @ CRLF @ CRLF)
     = ''GET''
   \<and> reduce_headers []
        (header_lines (split_crlf
           (''GET /unregistered/path HTTP/1.1'' @ CRLF @ ''Host: localhost'' @ CRLF @ CRLF)))
       = Inr [(''host'', ''localhost'')]
   \<and> path_token (''GET /unregistered/path HTTP/1.1'' @ CRLF @ ''Host: localhost'' @ CRLF @ CRLF)
       = Some ''/unregistered/path''
   \<and> route_exec ''/'' ''/unregistered/path'' = Inr None
   \<and> route_exec ''/echo/:str'' ''/unregistered/path'' = Inr None
   \<and> route_exec ''/user-agent'' ''/unregistered/path'' = Inr None
   \<and> route_exec ''/files/:filename'' ''/unregistered/path'' = Inr None
   \<and> on_data sample_gzipSync sample_RegExp app sample_world
        (''GET /unregistered/path HTTP/1.1'' @ CRLF @ ''Host: localhost'' @ CRLF @ CRLF)
       = Inr (sample_world, [''HTTP/1.1 404 Not Found'' @ [CR, LF, CR, LF]])"
proof -
  let ?data = "''GET /unregistered/path HTTP/1.1'' @ CRLF @ ''Host: localhost'' @ CRLF @ CRLF"
  have m: "method_token ?data = ''GET''" by code_simp
  have h1: "endpoints_get app (method_token ?data) = Some (GET app)"
    unfolding m by (simp add: endpoints_get_def)
  have h2: "reduce_headers [] (header_lines (split_crlf ?data)) = Inr [(''host'', ''localhost'')]"
    by code_simp
  have h3: "path_token ?data = Some ''/unregistered/path''" by code_simp
  have e1: "route_exec ''/'' ''/unregistered/path'' = Inr None" by code_simp
  have e2: "route_exec ''/echo/:str'' ''/unregistered/path'' = Inr None" by code_simp
  have e3: "route_exec ''/user-agent'' ''/unregistered/path'' = Inr None" by code_simp
  have e4: "route_exec ''/files/:filename'' ''/unregistered/path'' = Inr None" by code_simp
  have h4: "\<forall>r \<in> set (map fst (GET app)). route_exec r ''/unregistered/path'' = Inr None"
    using e1 e2 e3 e4 by (simp add: app_GET)
  have h5: "map_get (GET app) ''/unregistered/path'' = None"
    by (simp add: app_GET map_get_def)
  note t = unmatched_route_bare_404[OF h1 h2 h3 h4 h5, of sample_gzipSync sample_RegExp sample_world]
  show ?thesis
    by (intro conjI m h2 h3 e1 e2 e3 e4 t)
qed

text \<open>
  The claim C5 as it is written, for every request, fails: for a method other than GET and
  POST there is no table of routes, the loop over the routes throws, and nothing is written.
\<close>

theorem unmatched_route_bare_404_counterexample:
  "endpoints_get app (method_token (''DELETE /unregistered/path HTTP/1.1'' @ CRLF @ CRLF)) = None
   \<and> on_data sample_gzipSync sample_RegExp app sample_world
        (''DELETE /unregistered/path HTTP/1.1'' @ CRLF @ CRLF) = Inl TypeError"
proof -
  let ?data = "''DELETE /unregistered/path HTTP/1.1'' @ CRLF @ CRLF"
  have m: "method_token ?data = ''DELETE''" by code_simp
  have e: "endpoints_get app (method_token ?data) = None"
    unfolding m by (simp add: endpoints_get_def)
  have h: "reduce_headers [] (header_lines (split_crlf ?data)) = Inr []" by code_simp
  have "RequestBuilder sample_RegExp ?data (None :: (string \<times> HttpEndpoint) list option)
          = Inl TypeError"
    unfolding RequestBuilder_def Let_def h by simp
  then have "on_data sample_gzipSync sample_RegExp app sample_world ?data = Inl TypeError"
    unfolding on_data_def Let_def e by simp
  with e show ?thesis by (intro conjI)
qed

text \<open>
  Claim C10. A POST request whose header lines are read without an exception, whose path
  is matched by the route \<^verbatim>\<open>/files/:filename\<close> and whose body, the last line, is empty:
  the handler neither writes the file nor calls \<open>send\<close>, and nothing is written to the
  socket.
\<close>

theorem post_without_body_is_silent:
  assumes "method_token data = ''POST''"
    and "reduce_headers [] (header_lines (split_crlf data)) = Inr hs"
    and "path_token data = Some path"
    and "route_exec ''/files/:filename'' path = Inr (Some caps)"
    and "body_line (split_crlf data) = Some []"
  shows "on_data gzipSync other app w data = Inr (w, [])"
proof -
  have e: "endpoints_get app (method_token data) = Some (POST app)"
    using assms(1) by (simp add: endpoints_get_def)
  have "RequestBuilder other data (Some (POST app))
           = Inr \<lparr>req_method = method_token data, endpoint = Some ''/files/:filename'',
                  params = bind_params (paramNames (scan_route ''/files/:filename'')) caps [],
                  headers = hs, body = Some []\<rparr>"
    using RequestBuilder_match[OF assms(2,3) _ assms(4), of "[]" "POST app" "[]" other] assms(5)
    by (simp add: app_POST)
  then show ?thesis
    using e by (simp add: on_data_def find_callback_def app_POST map_get_def post_files_def
        truthy_def new_HttpRes_def)
qed

theorem post_without_body_is_silent_witness:
  "method_token (''POST /files/new HTTP/1.1'' @ CRLF @ ''Host: localhost'' @ CRLF @ CRLF)
     = ''POST''
   \<and> reduce_headers []
        (header_lines (split_crlf
           (''POST /files/new HTTP/1.1'' @ CRLF @ ''Host: localhost'' @ CRLF @ CRLF)))
       = Inr [(''host'', ''localhost'')]
   \<and> path_token (''POST /files/new HTTP/1.1'' @ CRLF @ ''Host: localhost'' @ CRLF @ CRLF)
       = Some ''/files/new''
   \<and> route_exec ''/files/:filename'' ''/files/new'' = Inr (Some [''new''])
   \<and> body_line (split_crlf
         (''POST /files/new HTTP/1.1'' @ CRLF @ ''Host: localhost'' @ CRLF @ CRLF)) = Some []
   \<and> on_data sample_gzipSync sample_RegExp app sample_world
        (''POST /files/new HTTP/1.1'' @ CRLF @ ''Host: localhost'' @ CRLF @ CRLF)
       = Inr (sample_world, [])"
proof -
  let ?data = "''POST /files/new HTTP/1.1'' @ CRLF @ ''Host: localhost'' @ CRLF @ CRLF"
  have h1: "method_token ?data = ''POST''" by code_simp
  have h2: "reduce_headers [] (header_lines (split_crlf ?data)) = Inr [(''host'', ''localhost'')]"
    by code_simp
  have h3: "path_token ?data = Some ''/files/new''" by code_simp
  have h4: "route_exec ''/files/:filename'' ''/files/new'' = Inr (Some [''new''])" by code_simp
  have h5: "body_line (split_crlf ?data) = Some []" by code_simp
  note t = post_without_body_is_silent[OF h1 h2 h3 h4 h5, of sample_gzipSync sample_RegExp sample_world]
  show ?thesis
    by (intro conjI h1 h2 h3 h4 h5 t)
qed

text \<open>
  Claim C1 does not hold of the code. The group of a parameter takes word characters and
  hyphens only, so the dot of \<^verbatim>\<open>missing.txt\<close> keeps the route \<^verbatim>\<open>/files/:filename\<close> from
  matching: the handler of the route never runs, and the answer is the bare 404 of an
  unmatched route, without \<^verbatim>\<open>Content-Type\<close> and without the body \<^verbatim>\<open>File not found\<close>,
  whatever the served directory holds. The lemma \<open>get_missing_file\<close> above is the answer
  the claim expects, which the code gives for a name of word characters and hyphens.
\<close>

theorem get_file_with_extension:
  "route_exec ''/files/:filename'' ''/files/missing.txt'' = Inr None
   \<and> on_data gzipSync other app w (''GET /files/missing.txt HTTP/1.1'' @ CRLF @ CRLF)
       = Inr (w, [''HTTP/1.1 404 Not Found'' @ [CR, LF, CR, LF]])"
proof -
  let ?data = "''GET /files/missing.txt HTTP/1.1'' @ CRLF @ CRLF"
  have m: "method_token ?data = ''GET''" by code_simp
  have h1: "endpoints_get app (method_token ?data) = Some (GET app)"
    unfolding m by (simp add: endpoints_get_def)
  have h2: "reduce_headers [] (header_lines (split_crlf ?data)) = Inr []"
    by code_simp
  have h3: "path_token ?data = Some ''/files/missing.txt''" by code_simp
  have e1: "route_exec ''/'' ''/files/missing.txt'' = Inr None" by code_simp
  have e2: "route_exec ''/echo/:str'' ''/files/missing.txt'' = Inr None" by code_simp
  have e3: "route_exec ''/user-agent'' ''/files/missing.txt'' = Inr None" by code_simp
  have e4: "route_exec ''/files/:filename'' ''/files/missing.txt'' = Inr None" by code_simp
  have h4: "\<forall>r \<in> set (map fst (GET app)). route_exec r ''/files/missing.txt'' = Inr None"
    using e1 e2 e3 e4 by (simp add: app_GET)
  have h5: "map_get (GET app) ''/files/missing.txt'' = None"
    by (simp add: app_GET map_get_def)
  show ?thesis
    using e4 on_data_no_route[OF h1 h2 h3 h4 h5, of gzipSync other w]
    by (simp add: bare_404_text)
qed

section \<open>Claims about the request parser\<close>

text \<open>
  Claim C3, as the code has it. The header lines are the lines between the method line and
  the last two lines, the empty line and the body. When they are ASCII text, a header line
  with one colon, whose name has at most one hyphen, gives the key that is the name in lower
  case with the hyphen turned into an underscore, and the value that is the text after the
  colon without the white space at its two ends; when the headers are read without an
  exception and no later header line has the same key, the request has that value under
  that key.
\<close>

theorem header_lines_and_entries:
  assumes "list_all ascii_text (header_lines ls)"
    and "CHR '':'' \<notin> set name" and "CHR '':'' \<notin> set val"
    and "count_list name (CHR ''-'') \<le> 1"
    and "header_lines ls = before @ (name @ '':'' @ val) # after"
    and "\<forall>l \<in> set after. header_key l \<noteq> spec_header_key name"
    and "reduce_headers [] (header_lines ls) = Inr hs"
  shows "header_lines ls = butlast (butlast (tl ls))
       \<and> header_entry (name @ '':'' @ val) = Inr (spec_header_key name, js_trim val)
       \<and> map_get hs (spec_header_key name) = Some (js_trim val)"
proof -
  let ?line = "name @ '':'' @ val"
  have e: "header_entry ?line = Inr (spec_header_key name, js_trim val)"
    using header_key_one_hyphen[OF assms(2,4)] header_value_one_colon[OF assms(2,3)]
    by (simp add: header_entry_def)
  from assms(5,7) have "reduce_headers [] (before @ ?line # after) = Inr hs" by simp
  then obtain a where a: "reduce_headers [] before = Inr a"
    and r: "reduce_headers (map_set (spec_header_key name) (js_trim val) a) after = Inr hs"
    using e by (auto simp: reduce_headers_append split: sum.splits)
  have "map_get (map_set (spec_header_key name) (js_trim val) a) (spec_header_key name)
          = Some (js_trim val)"
    by (simp add: map_get_map_set)
  from reduce_headers_keeps[OF r this assms(6)] e header_lines_butlast show ?thesis by simp
qed

theorem header_lines_and_entries_witness:
  "list_all ascii_text (header_lines (split_crlf sample_request))
   \<and> split_crlf sample_request
     = [''GET /user-agent HTTP/1.1'', ''Host: localhost'', ''User-Agent:  curl/8.0 '',
        ''Accept: text/plain'', [], []]
   \<and> header_lines (split_crlf sample_request)
     = [''Host: localhost''] @ (''User-Agent'' @ '':'' @ ''  curl/8.0 '') # [''Accept: text/plain'']
   \<and> header_key ''Accept: text/plain'' \<noteq> spec_header_key ''User-Agent''
   \<and> reduce_headers [] (header_lines (split_crlf sample_request))
     = Inr [(''host'', ''localhost''), (''user_agent'', ''curl/8.0''), (''accept'', ''text/plain'')]
   \<and> header_entry (''User-Agent'' @ '':'' @ ''  curl/8.0 '')
     = Inr (spec_header_key ''User-Agent'', js_trim ''  curl/8.0 '')
   \<and> spec_header_key ''User-Agent'' = ''user_agent''
   \<and> js_trim ''  curl/8.0 '' = ''curl/8.0''"
proof -
  have s: "split_crlf sample_request
     = [''GET /user-agent HTTP/1.1'', ''Host: localhost'', ''User-Agent:  curl/8.0 '',
        ''Accept: text/plain'', [], []]" by code_simp
  have h0: "list_all ascii_text (header_lines (split_crlf sample_request))" by code_simp
  have h1: "CHR '':'' \<notin> set ''User-Agent''" by code_simp
  have h2: "CHR '':'' \<notin> set ''  curl/8.0 ''" by code_simp
  have h3: "count_list ''User-Agent'' (CHR ''-'') \<le> 1" by code_simp
  have h4: "header_lines (split_crlf sample_request)
     = [''Host: localhost''] @ (''User-Agent'' @ '':'' @ ''  curl/8.0 '') # [''Accept: text/plain'']"
    by code_simp
  have k: "header_key ''Accept: text/plain'' \<noteq> spec_header_key ''User-Agent''" by code_simp
  have h5: "\<forall>l \<in> set [''Accept: text/plain'']. header_key l \<noteq> spec_header_key ''User-Agent''"
    using k by simp
  have h6: "reduce_headers [] (header_lines (split_crlf sample_request))
     = Inr [(''host'', ''localhost''), (''user_agent'', ''curl/8.0''), (''accept'', ''text/plain'')]"
    by code_simp
  have v1: "spec_header_key ''User-Agent'' = ''user_agent''" by code_simp
  have v2: "js_trim ''  curl/8.0 '' = ''curl/8.0''" by code_simp
  note t = header_lines_and_entries[OF h0 h1 h2 h3 h4 h5 h6]
  show ?thesis
    by (intro conjI h0 s h4 k h6 v1 v2 t[THEN conjunct2, THEN conjunct1])
qed

text \<open>
  The claim C3 as it is written fails on the request line, one header, the empty line and
  an empty body: the code leaves the empty line out of the header lines, where the claim
  leaves out the last line only, and it removes both spaces before \<^verbatim>\<open>curl\<close>, where the
  claim removes one.
\<close>

theorem header_lines_and_entries_counterexample:
  "ascii_text (''GET / HTTP/1.1'' @ CRLF @ ''User-Agent:  curl'' @ CRLF @ CRLF)
   \<and> split_crlf (''GET / HTTP/1.1'' @ CRLF @ ''User-Agent:  curl'' @ CRLF @ CRLF)
     = [''GET / HTTP/1.1'', ''User-Agent:  curl'', [], []]
   \<and> header_lines [''GET / HTTP/1.1'', ''User-Agent:  curl'', [], []] = [''User-Agent:  curl'']
   \<and> spec_header_lines [''GET / HTTP/1.1'', ''User-Agent:  curl'', [], []]
     = [''User-Agent:  curl'', []]
   \<and> header_entry ''User-Agent:  curl'' = Inr (''user_agent'', ''curl'')
   \<and> spec_header ''User-Agent:  curl'' = (''user_agent'', '' curl'')"
  by code_simp

end
